theory Spec2Isabelle
  imports Main "HOL-Library.AList"
begin

section \<open>The context manager of magenta.nvim: tracked files and their reconciliation\<close>

text \<open>
  A shallow embedding of the class \<open>ContextManager\<close> (the source file of the
  repository that declares \<open>Files\<close>, \<open>FileUpdates\<close> and \<open>getContextUpdate\<close>).

  \<^item> The object \<open>this.files\<close> is an association list in insertion order, as a
    JavaScript object with string keys is: \<open>files[p] = v\<close> is \<open>AList.update\<close>,
    \<open>delete files[p]\<close> is \<open>AList.delete\<close>, a write to a field of the entry of
    \<open>p\<close> is \<open>AList.map_entry\<close>.
  \<^item> Everything the class reads from outside (the disk, the editor's buffers, the
    PDF extractor, the diff library, path arithmetic) is a field of the record
    \<open>Env\<close>: one value of \<open>Env\<close> is what those calls answer during one pass.
  \<^item> A thrown exception is the left summand of the result; the state is returned
    beside it, since a JavaScript exception does not undo earlier writes.
  \<^item> Strings and byte buffers are \<open>char list\<close>; the time stamps
    \<open>mtime.getTime()\<close> and the change ticks are integers.
  \<^item> The tasks of one pass are interleaved by the scheduler. Each task reads and
    writes only the entry of its own path, which is proved below
    (\<open>reconcile_other_entry\<close>, \<open>reconcile_result_cong\<close>,
    \<open>reconcile_own_entry_cong\<close>); so, once all tasks have settled, what each has
    returned and written does not depend on the interleaving, and the model runs
    them in key order. A pass that rejects does so before all tasks have settled;
    the files at that moment are modelled apart (\<open>startEach\<close>).
\<close>

subsection \<open>Data\<close>

type_synonym AbsFilePath = string
type_synonym RelFilePath = string
type_synonym Patch = string

text \<open>\<open>FileCategory\<close> and \<open>FileTypeInfo\<close> are imported by the source from
  \<open>utils/files\<close>; the four categories and the two fields are the ones the source uses.\<close>

datatype FileCategory = TEXT | IMAGE | PDF | UNSUPPORTED

record FileTypeInfo =
  category :: FileCategory
  mimeType :: string

text \<open>\<open>agentView\<close>: \<open>{type: "text", content} | {type: "binary", mtime} | undefined\<close>.\<close>

datatype AgentView = AgentText string | AgentBinary int

record FileInfo =
  relFilePath :: RelFilePath
  fileTypeInfo :: FileTypeInfo
  agentView :: "AgentView option"

type_synonym Files = "(AbsFilePath \<times> FileInfo) list"

datatype FileUpdate = WholeFile string | Diff Patch | FileDeleted

text \<open>\<open>Result<T>\<close>: \<open>{status: "ok", value}\<close> or \<open>{status: "error", error}\<close>.\<close>

datatype ('a, 'e) Result = Ok 'a | Error 'e

text \<open>A JavaScript \<open>Error\<close> as the source reads it: \<open>code\<close>, \<open>message\<close>, \<open>stack\<close>.\<close>

record NodeError =
  code :: "string option"
  message :: string
  stack :: string

text \<open>
  The four error texts that \<open>handleTextFileUpdate\<close> and \<open>handleBinaryFileUpdate\<close>
  put into \<open>update.error\<close>, each with the values its template interpolates:
  \<^item> \<open>BothChanged bufnr path\<close>: "Both the buffer ... and the file on disk for ...
    have changed. Cannot determine which version to use."
  \<^item> \<open>GrabContextError path message stack\<close>: "Error when trying to grab the context
    of the file ...".
  \<^item> \<open>PdfTextError e\<close>: the error string of the PDF extractor, passed on as it is.
  \<^item> \<open>FileStatsError path message\<close>: "Error checking file stats for ...".
\<close>

datatype UpdateError =
    BothChanged nat AbsFilePath
  | GrabContextError AbsFilePath string string
  | PdfTextError string
  | FileStatsError AbsFilePath string

text \<open>One value of \<open>FileUpdates\<close>: \<open>{absFilePath, relFilePath, update}\<close>.\<close>

record FileUpdatesEntry =
  absFilePath :: AbsFilePath
  updRelFilePath :: RelFilePath
  updateResult :: "(FileUpdate, UpdateError) Result"

type_synonym FileUpdates = "(AbsFilePath \<times> FileUpdatesEntry) list"

text \<open>What \<open>bufferTracker.getSyncInfo\<close> returns for a file that is open in a buffer.\<close>

record BufSyncInfo =
  bufnr :: nat
  mtime :: int
  changeTick :: int

text \<open>
  The outside world during one pass.
  \<^item> \<open>relativePath\<close>: \<open>relativePath(this.context.cwd, \<hyphen>)\<close>.
  \<^item> \<open>existsSync\<close>, \<open>statSync\<close> (the value is \<open>stats.mtime.getTime()\<close>),
    \<open>readFileSync\<close> (the bytes of the file): the module \<open>fs\<close>.
  \<^item> \<open>toBase64\<close>: \<open>buffer.toString("base64")\<close>.
  \<^item> \<open>getSyncInfo\<close>: the buffer tracker. \<open>getChangeTick\<close>, \<open>attemptEdit\<close>,
    \<open>getLines\<close>: the methods of \<open>NvimBuffer\<close>, by buffer number; \<open>attemptEdit\<close>
    gives the error it throws, if any; the second argument of \<open>getLines\<close> says
    whether \<open>attemptEdit\<close> ran before, since it reloads the buffer.
  \<^item> \<open>extractPdfText\<close>: throws, or returns a \<open>Result\<close>.
  \<^item> \<open>createPatch\<close>: \<open>diff.createPatch(relFilePath, prev, current,
    "previous", "current", {context: 2, ignoreNewlineAtEof: true})\<close>.
  \<^item> \<open>applyInsert\<close>, \<open>applyReplace\<close>: \<open>utils/contentEdits\<close>.
\<close>

record Env =
  relativePath :: "AbsFilePath \<Rightarrow> RelFilePath"
  existsSync :: "AbsFilePath \<Rightarrow> bool"
  statSync :: "AbsFilePath \<Rightarrow> NodeError + int"
  readFileSync :: "AbsFilePath \<Rightarrow> NodeError + string"
  toBase64 :: "string \<Rightarrow> string"
  getSyncInfo :: "AbsFilePath \<Rightarrow> BufSyncInfo option"
  getChangeTick :: "nat \<Rightarrow> NodeError + int"
  attemptEdit :: "nat \<Rightarrow> NodeError option"
  getLines :: "nat \<Rightarrow> bool \<Rightarrow> NodeError + string list"
  extractPdfText :: "AbsFilePath \<Rightarrow> NodeError + (string, string) Result"
  createPatch :: "RelFilePath \<Rightarrow> string \<Rightarrow> string \<Rightarrow> Patch"
  applyInsert :: "string \<Rightarrow> string \<Rightarrow> string \<Rightarrow> (string, string) Result"
  applyReplace :: "string \<Rightarrow> string \<Rightarrow> string \<Rightarrow> (string, string) Result"

subsection \<open>Reconciling one file\<close>

text \<open>\<open>lines.join("\n")\<close>.\<close>

fun joinLines :: "string list \<Rightarrow> string" where
  "joinLines [] = []"
| "joinLines [l] = l"
| "joinLines (l # ls) = l @ [CHR 0x0A] @ joinLines ls"

text \<open>\<open>fileInfo.agentView = v\<close>, where \<open>fileInfo\<close> is the object stored under \<open>p\<close>.\<close>

definition setAgentView :: "AbsFilePath \<Rightarrow> AgentView \<Rightarrow> Files \<Rightarrow> Files" where
  "setAgentView p v files = AList.map_entry p (\<lambda>fi. fi\<lparr>agentView := Some v\<rparr>) files"

definition entry ::
  "AbsFilePath \<Rightarrow> RelFilePath \<Rightarrow> (FileUpdate, UpdateError) Result \<Rightarrow> FileUpdatesEntry" where
  "entry p rel u = \<lparr>absFilePath = p, updRelFilePath = rel, updateResult = u\<rparr>"

text \<open>
  The first half of \<open>handleTextFileUpdate\<close>: the two \<open>try\<close> blocks that compute
  \<open>currentFileContent\<close>. They end in one of four ways: the content is known; the
  function returns an error entry; the file has vanished (\<open>ENOENT\<close> on the read of
  a file without a buffer); the error of the read is thrown again.
\<close>

datatype ContentOutcome =
    Current string
  | EarlyError UpdateError
  | Vanished
  | Rethrown NodeError

definition grabError :: "AbsFilePath \<Rightarrow> NodeError \<Rightarrow> ContentOutcome" where
  "grabError p err = EarlyError (GrabContextError p (message err) (stack err))"

definition currentFileContent :: "Env \<Rightarrow> AbsFilePath \<Rightarrow> ContentOutcome" where
  "currentFileContent env p =
     (case getSyncInfo env p of
        Some bufSyncInfo \<Rightarrow>
          (case statSync env p of
             Inl err \<Rightarrow> grabError p err
           | Inr diskMtime \<Rightarrow>
               (case getChangeTick env (bufnr bufSyncInfo) of
                  Inl err \<Rightarrow> grabError p err
                | Inr currentChangeTick \<Rightarrow>
                    (let bufferChanged = (changeTick bufSyncInfo \<noteq> currentChangeTick);
                         fileChanged = (mtime bufSyncInfo < diskMtime)
                     in if bufferChanged \<and> fileChanged
                        then EarlyError (BothChanged (bufnr bufSyncInfo) p)
                        else
                          (case (if fileChanged \<and> \<not> bufferChanged
                                 then attemptEdit env (bufnr bufSyncInfo) else None) of
                             Some err \<Rightarrow> grabError p err
                           | None \<Rightarrow>
                               (case getLines env (bufnr bufSyncInfo)
                                       (fileChanged \<and> \<not> bufferChanged) of
                                  Inl err \<Rightarrow> grabError p err
                                | Inr lines \<Rightarrow> Current (joinLines lines))))))
      | None \<Rightarrow>
          (case readFileSync env p of
             Inr bytes \<Rightarrow> Current bytes
           | Inl err \<Rightarrow>
               if code err = Some ''ENOENT'' then Vanished else Rethrown err))"

text \<open>
  \<open>handleTextFileUpdate\<close>. The result is the thrown error or the returned value
  (\<open>None\<close> is \<open>undefined\<close>), and the files after the call. \<open>!prevContent\<close> holds
  when \<open>prevContent\<close> is \<open>undefined\<close> and when it is the empty string.
\<close>

definition handleTextFileUpdate ::
  "Env \<Rightarrow> AbsFilePath \<Rightarrow> RelFilePath \<Rightarrow> FileInfo \<Rightarrow> Files
     \<Rightarrow> (NodeError + FileUpdatesEntry option) \<times> Files" where
  "handleTextFileUpdate env p rel fileInfo files =
     (case currentFileContent env p of
        EarlyError e \<Rightarrow> (Inr (Some (entry p rel (Error e))), files)
      | Vanished \<Rightarrow> (Inr (Some (entry p rel (Ok FileDeleted))), AList.delete p files)
      | Rethrown err \<Rightarrow> (Inl err, files)
      | Current cur \<Rightarrow>
          (let prevContent = (case agentView fileInfo of
                                Some (AgentText c) \<Rightarrow> Some c
                              | _ \<Rightarrow> None);
               files' = setAgentView p (AgentText cur) files
           in case prevContent of
                None \<Rightarrow> (Inr (Some (entry p rel (Ok (WholeFile cur)))), files')
              | Some prev \<Rightarrow>
                  if prev = [] then (Inr (Some (entry p rel (Ok (WholeFile cur)))), files')
                  else if prev = cur then (Inr None, files')
                  else (Inr (Some (entry p rel (Ok (Diff (createPatch env rel prev cur))))),
                        files')))"

text \<open>
  \<open>handleBinaryFileUpdate\<close>: every exception is caught, so it always returns.
  \<open>prevMtime && prevMtime >= currentMtime\<close> needs a recorded time that is not 0.
\<close>

definition statsError :: "AbsFilePath \<Rightarrow> RelFilePath \<Rightarrow> NodeError \<Rightarrow> FileUpdatesEntry" where
  "statsError p rel err = entry p rel (Error (FileStatsError p (message err)))"

definition handleBinaryFileUpdate ::
  "Env \<Rightarrow> AbsFilePath \<Rightarrow> RelFilePath \<Rightarrow> FileInfo \<Rightarrow> Files
     \<Rightarrow> FileUpdatesEntry option \<times> Files" where
  "handleBinaryFileUpdate env p rel fileInfo files =
     (case statSync env p of
        Inl err \<Rightarrow> (Some (statsError p rel err), files)
      | Inr currentMtime \<Rightarrow>
          (let prevMtime = (case agentView fileInfo of
                              Some (AgentBinary m) \<Rightarrow> Some m
                            | _ \<Rightarrow> None);
               files' = setAgentView p (AgentBinary currentMtime) files
           in if (case prevMtime of
                    Some m \<Rightarrow> m \<noteq> 0 \<and> m \<ge> currentMtime
                  | None \<Rightarrow> False)
              then (None, files')
              else if category (fileTypeInfo fileInfo) = PDF
              then (case extractPdfText env p of
                      Inl err \<Rightarrow> (Some (statsError p rel err), files')
                    | Inr (Error e) \<Rightarrow> (Some (entry p rel (Error (PdfTextError e))), files')
                    | Inr (Ok text) \<Rightarrow> (Some (entry p rel (Ok (WholeFile text))), files'))
              else (case readFileSync env p of
                      Inl err \<Rightarrow> (Some (statsError p rel err), files')
                    | Inr bytes \<Rightarrow>
                        (Some (entry p rel (Ok (WholeFile (toBase64 env bytes)))), files'))))"

text \<open>\<open>getFileMessageAndUpdateAgentViewOfFile\<close>.\<close>

definition getFileMessageAndUpdateAgentViewOfFile ::
  "Env \<Rightarrow> AbsFilePath \<Rightarrow> Files \<Rightarrow> (NodeError + FileUpdatesEntry option) \<times> Files" where
  "getFileMessageAndUpdateAgentViewOfFile env p files =
     (let rel = relativePath env p in
      case map_of files p of
        None \<Rightarrow> (Inr None, files)
      | Some fileInfo \<Rightarrow>
          if \<not> existsSync env p
          then (Inr (Some (entry p rel (Ok FileDeleted))), AList.delete p files)
          else if category (fileTypeInfo fileInfo) = TEXT
          then handleTextFileUpdate env p rel fileInfo files
          else (case handleBinaryFileUpdate env p rel fileInfo files of
                  (r, files') \<Rightarrow> (Inr r, files')))"

subsection \<open>One pass over all tracked files\<close>

text \<open>\<open>isContextEmpty\<close>: \<open>Object.keys(this.files).length == 0\<close>.\<close>

definition isContextEmpty :: "Files \<Rightarrow> bool" where
  "isContextEmpty files = (length (map fst files) = 0)"

text \<open>
  The tasks that \<open>getContextUpdate\<close> starts, one for each key of \<open>this.files\<close>
  at the start of the pass, once all of them have settled. The accumulator holds the
  first error a task has thrown (the reason \<open>Promise.all\<close> rejects with), the
  object \<open>results\<close> and the files. A task that throws does not stop the other
  tasks: all of them are started by \<open>map\<close> before \<open>Promise.all\<close> is called.
  The list \<open>results\<close> stands for the object read by key: the source inserts the
  keys in the order in which the tasks finish, the model in key order.
\<close>

fun reconcileEach ::
  "Env \<Rightarrow> AbsFilePath list \<Rightarrow> NodeError option \<times> FileUpdates \<times> Files
     \<Rightarrow> NodeError option \<times> FileUpdates \<times> Files" where
  "reconcileEach env [] acc = acc"
| "reconcileEach env (p # ps) (rejected, results, files) =
     (case getFileMessageAndUpdateAgentViewOfFile env p files of
        (Inl err, files') \<Rightarrow>
          reconcileEach env ps
            ((case rejected of None \<Rightarrow> Some err | Some e \<Rightarrow> Some e), results, files')
      | (Inr None, files') \<Rightarrow> reconcileEach env ps (rejected, results, files')
      | (Inr (Some r), files') \<Rightarrow>
          reconcileEach env ps (rejected, AList.update p r results, files'))"

text \<open>
  The files at the moment \<open>Promise.all\<close> rejects. The only \<open>throw\<close> of a task is
  in the synchronous read of a text file without a buffer, so a pass rejects right
  after \<open>map\<close> has started the tasks, each of which has run up to its first
  \<open>await\<close> of the editor or of the PDF extractor:
  \<^item> the task of a text file that is open in a buffer has called \<open>statSync\<close> and
    awaits \<open>getChangeTick\<close>; it has written nothing yet (\<open>awaitsEditor\<close>);
  \<^item> every other task has done all its writes: the deletion of a missing file, the
    whole of \<open>handleTextFileUpdate\<close> for a file without a buffer, and in
    \<open>handleBinaryFileUpdate\<close> the assignment to \<open>agentView\<close>, which comes before
    \<open>await extractPdfText\<close>.
\<close>

definition awaitsEditor :: "Env \<Rightarrow> AbsFilePath \<Rightarrow> Files \<Rightarrow> bool" where
  "awaitsEditor env p files =
     (case map_of files p of
        None \<Rightarrow> False
      | Some fileInfo \<Rightarrow>
          existsSync env p \<and> category (fileTypeInfo fileInfo) = TEXT
          \<and> getSyncInfo env p \<noteq> None)"

fun startEach :: "Env \<Rightarrow> AbsFilePath list \<Rightarrow> Files \<Rightarrow> Files" where
  "startEach env [] files = files"
| "startEach env (p # ps) files =
     startEach env ps
       (if awaitsEditor env p files then files
        else snd (getFileMessageAndUpdateAgentViewOfFile env p files))"

text \<open>
  \<open>getContextUpdate\<close>: the result map and the files after all tasks, or the error
  the promise rejects with and the files at that moment.
\<close>

definition getContextUpdate :: "Env \<Rightarrow> Files \<Rightarrow> (NodeError + FileUpdates) \<times> Files" where
  "getContextUpdate env files =
     (if isContextEmpty files then (Inr [], files)
      else (case reconcileEach env (map fst files) (None, [], files) of
              (None, results, files') \<Rightarrow> (Inr results, files')
            | (Some err, results, files') \<Rightarrow> (Inl err, startEach env (map fst files) files)))"

subsection \<open>Messages: tracking, untracking, tool applications; reset\<close>

text \<open>\<open>ToolApplication\<close> and \<open>Msg\<close>, with the fields in the order of the source.\<close>

datatype ToolApplication =
    GetFile string
  | GetFileBinary int
  | Insert string string
  | Replace string string

datatype Msg =
    AddFileContext RelFilePath AbsFilePath FileTypeInfo
  | RemoveFileContext AbsFilePath
  | OpenFile AbsFilePath
  | ToolApplied AbsFilePath ToolApplication FileTypeInfo

text \<open>
  The errors that \<open>update\<close> and \<open>updateAgentsViewOfFiles\<close> throw, in the order
  of the \<open>throw\<close> statements of the source: unsupported category at
  \<open>add-file-context\<close>; file not found in context; insert or replace on a file
  that is not text; agent view that is not text; \<open>applyInsert\<close> or
  \<open>applyReplace\<close> failed; the file could not be read.
\<close>

datatype ContextError =
    CannotAddUnsupported RelFilePath FileCategory string
  | NotFoundInContext AbsFilePath
  | NonTextOperation AbsFilePath FileCategory
  | AgentViewNotText AbsFilePath
  | AgentViewUpdateFailed AbsFilePath string
  | ReadForAgentViewFailed AbsFilePath string

text \<open>
  The branch of \<open>updateAgentsViewOfFiles\<close> for \<open>insert\<close> and \<open>replace\<close>;
  \<open>edit\<close> is the call of \<open>applyInsert\<close> or of \<open>applyReplace\<close> on the content
  the agent has seen.
\<close>

definition editAgentView ::
  "Env \<Rightarrow> AbsFilePath \<Rightarrow> (string \<Rightarrow> (string, string) Result) \<Rightarrow> FileInfo \<Rightarrow> Files
     \<Rightarrow> ContextError option \<times> Files" where
  "editAgentView env p edit fileInfo files =
     (if category (fileTypeInfo fileInfo) \<noteq> TEXT
      then (Some (NonTextOperation p (category (fileTypeInfo fileInfo))), files)
      else (case agentView fileInfo of
              Some (AgentBinary m) \<Rightarrow> (Some (AgentViewNotText p), files)
            | Some (AgentText c) \<Rightarrow>
                (case edit c of
                   Ok c' \<Rightarrow> (None, setAgentView p (AgentText c') files)
                 | Error e \<Rightarrow> (Some (AgentViewUpdateFailed p e), files))
            | None \<Rightarrow>
                (case readFileSync env p of
                   Inr currentContent \<Rightarrow> (None, setAgentView p (AgentText currentContent) files)
                 | Inl err \<Rightarrow> (Some (ReadForAgentViewFailed p (message err)), files))))"

definition updateAgentsViewOfFiles ::
  "Env \<Rightarrow> AbsFilePath \<Rightarrow> ToolApplication \<Rightarrow> Files \<Rightarrow> ContextError option \<times> Files" where
  "updateAgentsViewOfFiles env p tool files =
     (case map_of files p of
        None \<Rightarrow> (Some (NotFoundInContext p), files)
      | Some fileInfo \<Rightarrow>
          (case tool of
             GetFile c \<Rightarrow> (None, setAgentView p (AgentText c) files)
           | GetFileBinary m \<Rightarrow> (None, setAgentView p (AgentBinary m) files)
           | Insert insertAfter ins \<Rightarrow>
               editAgentView env p (\<lambda>c. applyInsert env c insertAfter ins) fileInfo files
           | Replace findStr repl \<Rightarrow>
               editAgentView env p (\<lambda>c. applyReplace env c findStr repl) fileInfo files))"

text \<open>
  \<open>update\<close>: the error it throws, if any, and the files after the call.
  \<open>open-file\<close> opens a window or an application and leaves the files alone.
\<close>

definition update :: "Env \<Rightarrow> Msg \<Rightarrow> Files \<Rightarrow> ContextError option \<times> Files" where
  "update env msg files =
     (case msg of
        AddFileContext rel p fti \<Rightarrow>
          if category fti = UNSUPPORTED
          then (Some (CannotAddUnsupported rel (category fti) (mimeType fti)), files)
          else (None, AList.update p
                        \<lparr>relFilePath = rel, fileTypeInfo = fti, agentView = None\<rparr> files)
      | RemoveFileContext p \<Rightarrow> (None, AList.delete p files)
      | OpenFile p \<Rightarrow> (None, files)
      | ToolApplied p tool fti \<Rightarrow>
          updateAgentsViewOfFiles env p tool
            (if map_of files p = None
             then AList.update p
                    \<lparr>relFilePath = relativePath env p, fileTypeInfo = fti, agentView = None\<rparr>
                    files
             else files))"

text \<open>\<open>reset\<close>: the loop over the keys sets \<open>agentView\<close> of each entry to \<open>undefined\<close>.\<close>

fun reset :: "Files \<Rightarrow> Files" where
  "reset [] = []"
| "reset ((p, fileInfo) # files) = (p, fileInfo\<lparr>agentView := None\<rparr>) # reset files"

subsection \<open>Example worlds\<close>

definition enoent :: NodeError where
  "enoent = \<lparr>code = Some ''ENOENT'', message = ''no such file or directory'', stack = []\<rparr>"

definition eacces :: NodeError where
  "eacces = \<lparr>code = Some ''EACCES'', message = ''permission denied'', stack = []\<rparr>"

text \<open>
  A world in which every path exists with modification time 1 and empty content, no
  file is open in a buffer and no call fails. The examples below change single fields.
\<close>

definition quietEnv :: Env where
  "quietEnv =
     \<lparr>relativePath = (\<lambda>p. p),
      existsSync = (\<lambda>p. True),
      statSync = (\<lambda>p. Inr 1),
      readFileSync = (\<lambda>p. Inr []),
      toBase64 = (\<lambda>bytes. []),
      getSyncInfo = (\<lambda>p. None),
      getChangeTick = (\<lambda>n. Inr 0),
      attemptEdit = (\<lambda>n. None),
      getLines = (\<lambda>n reloaded. Inr []),
      extractPdfText = (\<lambda>p. Inr (Ok [])),
      createPatch = (\<lambda>rel prev cur. []),
      applyInsert = (\<lambda>c insertAfter ins. Ok c),
      applyReplace = (\<lambda>c findStr repl. Ok c)\<rparr>"

definition textInfo :: "RelFilePath \<Rightarrow> AgentView option \<Rightarrow> FileInfo" where
  "textInfo rel v =
     \<lparr>relFilePath = rel,
      fileTypeInfo = \<lparr>category = TEXT, mimeType = ''text/plain''\<rparr>,
      agentView = v\<rparr>"

definition imageInfo :: "RelFilePath \<Rightarrow> AgentView option \<Rightarrow> FileInfo" where
  "imageInfo rel v =
     \<lparr>relFilePath = rel,
      fileTypeInfo = \<lparr>category = IMAGE, mimeType = ''image/png''\<rparr>,
      agentView = v\<rparr>"

definition pdfInfo :: "RelFilePath \<Rightarrow> AgentView option \<Rightarrow> FileInfo" where
  "pdfInfo rel v =
     \<lparr>relFilePath = rel,
      fileTypeInfo = \<lparr>category = PDF, mimeType = ''application/pdf''\<rparr>,
      agentView = v\<rparr>"

text \<open>A text file open in buffer 4; both the buffer and the disk have moved on.\<close>

definition conflictEnv :: Env where
  "conflictEnv =
     quietEnv\<lparr>getSyncInfo := (\<lambda>p. Some \<lparr>bufnr = 4, mtime = 10, changeTick = 2\<rparr>),
              statSync := (\<lambda>p. Inr 20),
              getChangeTick := (\<lambda>n. Inr 3)\<rparr>"

text \<open>Two tracked text files that the agent has not seen yet.\<close>

definition twoTextFiles :: Files where
  "twoTextFiles = [(''/w/a.txt'', textInfo ''a.txt'' None), (''/w/b.txt'', textInfo ''b.txt'' None)]"

text \<open>The read of \<open>/w/a.txt\<close> is refused; every other file reads as \<open>x\<close>.\<close>

definition deniedEnv :: Env where
  "deniedEnv =
     quietEnv\<lparr>readFileSync := (\<lambda>p. if p = ''/w/a.txt'' then Inl eacces else Inr ''x'')\<rparr>"

text \<open>\<open>/w/a.txt\<close> is open in buffer 4 and in conflict; the other files are only on disk.\<close>

definition mixedEnv :: Env where
  "mixedEnv =
     quietEnv\<lparr>getSyncInfo :=
                (\<lambda>p. if p = ''/w/a.txt'' then Some \<lparr>bufnr = 4, mtime = 10, changeTick = 2\<rparr>
                     else None),
              statSync := (\<lambda>p. Inr 20),
              getChangeTick := (\<lambda>n. Inr 3),
              readFileSync := (\<lambda>p. Inr ''x'')\<rparr>"



text \<open>Modification time 7 on disk; the PDF extractor fails in the first world and
  succeeds in the second.\<close>

definition pdfFailEnv :: Env where
  "pdfFailEnv =
     quietEnv\<lparr>statSync := (\<lambda>p. Inr 7),
              extractPdfText := (\<lambda>p. Inr (Error ''cannot parse''))\<rparr>"

definition pdfFineEnv :: Env where
  "pdfFineEnv =
     quietEnv\<lparr>statSync := (\<lambda>p. Inr 7),
              extractPdfText := (\<lambda>p. Inr (Ok ''text of the pdf''))\<rparr>"

text \<open>Every file reads as \<open>x\<close>.\<close>

definition xEnv :: Env where
  "xEnv = quietEnv\<lparr>readFileSync := (\<lambda>p. Inr ''x'')\<rparr>"

section \<open>Properties\<close>

lemmas reconcile_defs =
  getContextUpdate_def isContextEmpty_def
  getFileMessageAndUpdateAgentViewOfFile_def handleTextFileUpdate_def
  handleBinaryFileUpdate_def currentFileContent_def grabError_def statsError_def
  setAgentView_def entry_def Let_def

lemmas example_defs =
  quietEnv_def textInfo_def imageInfo_def pdfInfo_def enoent_def eacces_def

subsection \<open>A reconciliation touches the entry of its own path only\<close>

lemma map_of_setAgentView_other:
  "q \<noteq> p \<Longrightarrow> map_of (setAgentView p v files) q = map_of files q"
  by (simp add: setAgentView_def AList.map_of_map_entry)

lemma map_of_setAgentView_same:
  "map_of files p = Some fi \<Longrightarrow>
   map_of (setAgentView p v files) p = Some (fi\<lparr>agentView := Some v\<rparr>)"
  by (simp add: setAgentView_def AList.map_of_map_entry)

lemma keys_setAgentView: "map fst (setAgentView p v files) = map fst files"
  unfolding setAgentView_def by (induction files) auto

lemma handleText_cases:
  "snd (handleTextFileUpdate env p rel fi files) = files
   \<or> snd (handleTextFileUpdate env p rel fi files) = AList.delete p files
   \<or> (\<exists>v. snd (handleTextFileUpdate env p rel fi files) = setAgentView p v files)"
  by (auto simp: handleTextFileUpdate_def Let_def split: ContentOutcome.splits option.splits)

lemma handleBinary_cases:
  "snd (handleBinaryFileUpdate env p rel fi files) = files
   \<or> (\<exists>v. snd (handleBinaryFileUpdate env p rel fi files) = setAgentView p v files)"
  by (auto simp: handleBinaryFileUpdate_def Let_def split: sum.splits option.splits Result.splits)

lemma reconcile_files_cases:
  "snd (getFileMessageAndUpdateAgentViewOfFile env p files) = files
   \<or> snd (getFileMessageAndUpdateAgentViewOfFile env p files) = AList.delete p files
   \<or> (\<exists>v. snd (getFileMessageAndUpdateAgentViewOfFile env p files) = setAgentView p v files)"
proof (cases "map_of files p")
  case None
  then show ?thesis by (simp add: getFileMessageAndUpdateAgentViewOfFile_def)
next
  case (Some fi)
  show ?thesis
    using handleText_cases [of env p "relativePath env p" fi files]
          handleBinary_cases [of env p "relativePath env p" fi files]
    by (auto simp: getFileMessageAndUpdateAgentViewOfFile_def Let_def Some split: prod.splits)
qed

text \<open>The entries of the other paths stay as they are.\<close>

lemma reconcile_other_entry:
  "q \<noteq> p \<Longrightarrow>
   map_of (snd (getFileMessageAndUpdateAgentViewOfFile env p files)) q = map_of files q"
  using reconcile_files_cases [of env p files]
  by (auto simp: map_of_setAgentView_other)

text \<open>What a reconciliation returns depends on the files through the entry of its own
  path only; so does what it writes into that entry.\<close>

lemma fst_handleText_cong:
  "fst (handleTextFileUpdate env p rel fi files) = fst (handleTextFileUpdate env p rel fi files2)"
  by (auto simp: handleTextFileUpdate_def Let_def split: ContentOutcome.splits option.splits)

lemma fst_handleBinary_cong:
  "fst (handleBinaryFileUpdate env p rel fi files) = fst (handleBinaryFileUpdate env p rel fi files2)"
  by (auto simp: handleBinaryFileUpdate_def Let_def split: sum.splits option.splits Result.splits)

lemma reconcile_result_cong:
  assumes "map_of files p = map_of files2 p"
  shows "fst (getFileMessageAndUpdateAgentViewOfFile env p files) =
         fst (getFileMessageAndUpdateAgentViewOfFile env p files2)"
proof (cases "map_of files p")
  case None
  with assms show ?thesis by (simp add: getFileMessageAndUpdateAgentViewOfFile_def)
next
  case (Some fi)
  with assms have s2: "map_of files2 p = Some fi" by simp
  show ?thesis
    using fst_handleText_cong [of env p "relativePath env p" fi files files2]
          fst_handleBinary_cong [of env p "relativePath env p" fi files files2]
    by (auto simp: getFileMessageAndUpdateAgentViewOfFile_def Let_def Some s2 split: prod.splits)
qed

lemma own_entry_handleText:
  "map_of (snd (handleTextFileUpdate env p rel fi files)) p =
     (case currentFileContent env p of
        Current cur \<Rightarrow> map_option (\<lambda>f. f\<lparr>agentView := Some (AgentText cur)\<rparr>) (map_of files p)
      | Vanished \<Rightarrow> None
      | _ \<Rightarrow> map_of files p)"
proof (cases "currentFileContent env p")
  case (Current cur)
  have "snd (handleTextFileUpdate env p rel fi files) = setAgentView p (AgentText cur) files"
    by (simp add: handleTextFileUpdate_def Current Let_def split: option.splits AgentView.splits)
  then show ?thesis
    by (simp add: Current setAgentView_def AList.map_of_map_entry split: option.splits)
qed (simp_all add: handleTextFileUpdate_def AList.delete_conv')

lemma own_entry_handleBinary:
  "map_of (snd (handleBinaryFileUpdate env p rel fi files)) p =
     (case statSync env p of
        Inl err \<Rightarrow> map_of files p
      | Inr m \<Rightarrow> map_option (\<lambda>f. f\<lparr>agentView := Some (AgentBinary m)\<rparr>) (map_of files p))"
proof (cases "statSync env p")
  case (Inl err)
  then show ?thesis by (simp add: handleBinaryFileUpdate_def)
next
  case (Inr m)
  have "snd (handleBinaryFileUpdate env p rel fi files) = setAgentView p (AgentBinary m) files"
    by (simp add: handleBinaryFileUpdate_def Inr Let_def split: sum.splits Result.splits)
  then show ?thesis
    by (simp add: Inr setAgentView_def AList.map_of_map_entry split: option.splits)
qed

lemma snd_reconcile_tracked:
  assumes "map_of files p = Some fi"
  shows "snd (getFileMessageAndUpdateAgentViewOfFile env p files) =
           (if \<not> existsSync env p then AList.delete p files
            else if category (fileTypeInfo fi) = TEXT
            then snd (handleTextFileUpdate env p (relativePath env p) fi files)
            else snd (handleBinaryFileUpdate env p (relativePath env p) fi files))"
  using assms
  by (simp add: getFileMessageAndUpdateAgentViewOfFile_def Let_def split: prod.splits)

lemma reconcile_own_entry_cong:
  assumes "map_of files p = map_of files2 p"
  shows "map_of (snd (getFileMessageAndUpdateAgentViewOfFile env p files)) p =
         map_of (snd (getFileMessageAndUpdateAgentViewOfFile env p files2)) p"
proof (cases "map_of files p")
  case None
  with assms show ?thesis by (simp add: getFileMessageAndUpdateAgentViewOfFile_def)
next
  case (Some fi)
  with assms have s2: "map_of files2 p = Some fi" by simp
  show ?thesis
    unfolding snd_reconcile_tracked [OF Some] snd_reconcile_tracked [OF s2]
    by (simp add: own_entry_handleText own_entry_handleBinary AList.delete_conv' Some s2
          split: ContentOutcome.splits sum.splits)
qed


text \<open>The only exception a reconciliation throws: a text file that is not open in a
  buffer cannot be read, for a reason other than \<open>ENOENT\<close>.\<close>

lemma currentFileContent_Rethrown_iff:
  "currentFileContent env p = Rethrown err \<longleftrightarrow>
     getSyncInfo env p = None \<and> readFileSync env p = Inl err \<and> code err \<noteq> Some ''ENOENT''"
proof (cases "getSyncInfo env p")
  case None
  then show ?thesis
    by (cases "readFileSync env p") (auto simp: currentFileContent_def)
next
  case (Some bsi)
  then show ?thesis
    by (simp add: currentFileContent_def grabError_def Let_def
          split: sum.splits option.splits)
qed

lemma handleText_throws_iff:
  "isl (fst (handleTextFileUpdate env p rel fi files)) \<longleftrightarrow>
     (\<exists>err. currentFileContent env p = Rethrown err)"
  by (cases "currentFileContent env p")
     (simp_all add: handleTextFileUpdate_def Let_def split: option.splits AgentView.splits)

lemma reconcile_throws_iff:
  "isl (fst (getFileMessageAndUpdateAgentViewOfFile env p files)) \<longleftrightarrow>
     (\<exists>fi err. map_of files p = Some fi \<and> category (fileTypeInfo fi) = TEXT
        \<and> existsSync env p \<and> getSyncInfo env p = None
        \<and> readFileSync env p = Inl err \<and> code err \<noteq> Some ''ENOENT'')"
proof (cases "map_of files p")
  case None
  then show ?thesis by (simp add: getFileMessageAndUpdateAgentViewOfFile_def)
next
  case (Some fi)
  show ?thesis
    using handleText_throws_iff [of env p "relativePath env p" fi files]
    by (simp add: getFileMessageAndUpdateAgentViewOfFile_def Some Let_def
          currentFileContent_Rethrown_iff split: prod.splits)
qed

subsection \<open>What a text file's reconciliation returns, by the agent's view it finds\<close>

lemma text_first_sight:
  assumes "map_of files p = Some fi" "category (fileTypeInfo fi) = TEXT" "existsSync env p"
    and "agentView fi = None"
    and "currentFileContent env p = Current cur"
  shows "getFileMessageAndUpdateAgentViewOfFile env p files =
           (Inr (Some (entry p (relativePath env p) (Ok (WholeFile cur)))),
            setAgentView p (AgentText cur) files)"
  using assms
  by (simp add: getFileMessageAndUpdateAgentViewOfFile_def handleTextFileUpdate_def Let_def)

lemma text_reconcile_with_nonempty_view:
  assumes "map_of files p = Some fi" "category (fileTypeInfo fi) = TEXT" "existsSync env p"
    and "agentView fi = Some (AgentText prev)" "prev \<noteq> []"
    and "currentFileContent env p = Current cur"
  shows "getFileMessageAndUpdateAgentViewOfFile env p files =
           ((if prev = cur then Inr None
             else Inr (Some (entry p (relativePath env p)
                         (Ok (Diff (createPatch env (relativePath env p) prev cur)))))),
            setAgentView p (AgentText cur) files)"
  using assms
  by (simp add: getFileMessageAndUpdateAgentViewOfFile_def handleTextFileUpdate_def Let_def)

text \<open>A recorded empty text is treated like no recorded text.\<close>

lemma text_reconcile_with_empty_view:
  assumes "map_of files p = Some fi" "category (fileTypeInfo fi) = TEXT" "existsSync env p"
    and "agentView fi = Some (AgentText [])"
    and "currentFileContent env p = Current cur"
  shows "getFileMessageAndUpdateAgentViewOfFile env p files =
           (Inr (Some (entry p (relativePath env p) (Ok (WholeFile cur)))),
            setAgentView p (AgentText cur) files)"
  using assms
  by (simp add: getFileMessageAndUpdateAgentViewOfFile_def handleTextFileUpdate_def Let_def)

lemma setAgentView_idem: "setAgentView p v (setAgentView p v files) = setAgentView p v files"
  unfolding setAgentView_def by (induction files) auto

text \<open>When the content that was read is not empty, reading the same content again
  returns nothing and leaves the files as they are.\<close>

lemma second_reconciliation_of_nonempty_content:
  assumes tracked: "map_of files p = Some fi"
    and is_text: "category (fileTypeInfo fi) = TEXT"
    and on_disk: "existsSync env p"
    and read: "currentFileContent env p = Current cur"
    and nonempty: "cur \<noteq> []"
  shows "getFileMessageAndUpdateAgentViewOfFile env p
           (snd (getFileMessageAndUpdateAgentViewOfFile env p files)) =
         (Inr None, snd (getFileMessageAndUpdateAgentViewOfFile env p files))"
proof -
  have first: "snd (getFileMessageAndUpdateAgentViewOfFile env p files) =
               setAgentView p (AgentText cur) files"
    using tracked is_text on_disk read
    by (simp add: getFileMessageAndUpdateAgentViewOfFile_def handleTextFileUpdate_def Let_def
          split: option.splits AgentView.splits)
  have entry1: "map_of (setAgentView p (AgentText cur) files) p =
                Some (fi\<lparr>agentView := Some (AgentText cur)\<rparr>)"
    by (rule map_of_setAgentView_same [OF tracked])
  have "getFileMessageAndUpdateAgentViewOfFile env p (setAgentView p (AgentText cur) files) =
          (Inr None, setAgentView p (AgentText cur) (setAgentView p (AgentText cur) files))"
    using text_reconcile_with_nonempty_view [OF entry1 _ on_disk _ nonempty read] is_text
    by simp
  then show ?thesis by (simp add: first setAgentView_idem)
qed

subsection \<open>A PDF whose extraction fails\<close>

text \<open>The new modification time is written into the agent's view although the
  extraction fails.\<close>

lemma pdf_extraction_failure_writes_agent_view:
  assumes tracked: "map_of files p = Some fi"
    and pdf: "category (fileTypeInfo fi) = PDF"
    and on_disk: "existsSync env p"
    and stat: "statSync env p = Inr currentMtime"
    and fresh: "\<forall>m. agentView fi = Some (AgentBinary m) \<longrightarrow> m = 0 \<or> m < currentMtime"
    and failed: "extractPdfText env p = Inr (Error e)"
  shows "getFileMessageAndUpdateAgentViewOfFile env p files =
           (Inr (Some (entry p (relativePath env p) (Error (PdfTextError e)))),
            setAgentView p (AgentBinary currentMtime) files)"
proof -
  have "handleBinaryFileUpdate env p (relativePath env p) fi files =
          (Some (entry p (relativePath env p) (Error (PdfTextError e))),
           setAgentView p (AgentBinary currentMtime) files)"
    using pdf stat fresh failed
    by (auto simp: handleBinaryFileUpdate_def Let_def split: option.splits AgentView.splits)
  with tracked pdf on_disk show ?thesis
    by (simp add: getFileMessageAndUpdateAgentViewOfFile_def Let_def)
qed

subsection \<open>The tasks of one pass\<close>

lemma reconcileEach_step:
  "reconcileEach env (p # ps) (rej, results, files) =
     reconcileEach env ps
       ((case fst (getFileMessageAndUpdateAgentViewOfFile env p files) of
           Inl err \<Rightarrow> (case rej of None \<Rightarrow> Some err | Some e \<Rightarrow> Some e)
         | Inr r \<Rightarrow> rej),
        (case fst (getFileMessageAndUpdateAgentViewOfFile env p files) of
           Inr (Some r) \<Rightarrow> AList.update p r results
         | _ \<Rightarrow> results),
        snd (getFileMessageAndUpdateAgentViewOfFile env p files))"
  by (cases "getFileMessageAndUpdateAgentViewOfFile env p files")
     (auto split: sum.splits option.splits)

lemma reconcileEach_results:
  assumes "distinct ps"
  shows "map_of (fst (snd (reconcileEach env ps (rej, results, files)))) q =
           (if q \<in> set ps
            then (case fst (getFileMessageAndUpdateAgentViewOfFile env q files) of
                    Inr (Some r) \<Rightarrow> Some r
                  | _ \<Rightarrow> map_of results q)
            else map_of results q)"
  using assms
proof (induction ps arbitrary: rej results files)
  case Nil
  show ?case by simp
next
  case (Cons p ps)
  define out where "out = fst (getFileMessageAndUpdateAgentViewOfFile env p files)"
  define files1 where "files1 = snd (getFileMessageAndUpdateAgentViewOfFile env p files)"
  define results1 where
    "results1 = (case out of Inr (Some r) \<Rightarrow> AList.update p r results | _ \<Rightarrow> results)"
  define rej1 where
    "rej1 = (case out of
               Inl err \<Rightarrow> (case rej of None \<Rightarrow> Some err | Some e \<Rightarrow> Some e)
             | Inr r \<Rightarrow> rej)"
  from Cons.prems have d: "distinct ps" and np: "p \<notin> set ps" by simp_all
  have step: "reconcileEach env (p # ps) (rej, results, files) =
              reconcileEach env ps (rej1, results1, files1)"
    unfolding reconcileEach_step out_def files1_def results1_def rej1_def ..
  have ih: "map_of (fst (snd (reconcileEach env ps (rej1, results1, files1)))) q =
              (if q \<in> set ps
               then (case fst (getFileMessageAndUpdateAgentViewOfFile env q files1) of
                       Inr (Some r) \<Rightarrow> Some r
                     | _ \<Rightarrow> map_of results1 q)
               else map_of results1 q)"
    by (rule Cons.IH [OF d])
  show ?case
  proof (cases "q = p")
    case True
    then have "map_of (fst (snd (reconcileEach env ps (rej1, results1, files1)))) q =
               map_of results1 q"
      using np ih by simp
    also have "map_of results1 q =
               (case out of Inr (Some r) \<Rightarrow> Some r | _ \<Rightarrow> map_of results q)"
      using True by (simp add: results1_def AList.update_conv' split: sum.splits option.splits)
    finally show ?thesis
      unfolding step using True by (simp add: out_def)
  next
    case False
    then have same: "fst (getFileMessageAndUpdateAgentViewOfFile env q files1) =
                     fst (getFileMessageAndUpdateAgentViewOfFile env q files)"
      unfolding files1_def by (intro reconcile_result_cong reconcile_other_entry)
    have other: "map_of results1 q = map_of results q"
      using False
      by (simp add: results1_def AList.update_conv' split: sum.splits option.splits)
    show ?thesis
      unfolding step using False ih
      by (simp add: same other split: sum.splits option.splits)
  qed
qed

lemma reconcileEach_files:
  assumes "distinct ps"
  shows "map_of (snd (snd (reconcileEach env ps (rej, results, files)))) q =
           (if q \<in> set ps
            then map_of (snd (getFileMessageAndUpdateAgentViewOfFile env q files)) q
            else map_of files q)"
  using assms
proof (induction ps arbitrary: rej results files)
  case Nil
  show ?case by simp
next
  case (Cons p ps)
  define out where "out = fst (getFileMessageAndUpdateAgentViewOfFile env p files)"
  define files1 where "files1 = snd (getFileMessageAndUpdateAgentViewOfFile env p files)"
  define results1 where
    "results1 = (case out of Inr (Some r) \<Rightarrow> AList.update p r results | _ \<Rightarrow> results)"
  define rej1 where
    "rej1 = (case out of
               Inl err \<Rightarrow> (case rej of None \<Rightarrow> Some err | Some e \<Rightarrow> Some e)
             | Inr r \<Rightarrow> rej)"
  from Cons.prems have d: "distinct ps" and np: "p \<notin> set ps" by simp_all
  have step: "reconcileEach env (p # ps) (rej, results, files) =
              reconcileEach env ps (rej1, results1, files1)"
    unfolding reconcileEach_step out_def files1_def results1_def rej1_def ..
  have ih: "map_of (snd (snd (reconcileEach env ps (rej1, results1, files1)))) q =
              (if q \<in> set ps
               then map_of (snd (getFileMessageAndUpdateAgentViewOfFile env q files1)) q
               else map_of files1 q)"
    by (rule Cons.IH [OF d])
  show ?case
  proof (cases "q = p")
    case True
    with np ih show ?thesis unfolding step by (simp add: files1_def)
  next
    case False
    then have old: "map_of files1 q = map_of files q"
      unfolding files1_def by (rule reconcile_other_entry)
    then have "map_of (snd (getFileMessageAndUpdateAgentViewOfFile env q files1)) q =
               map_of (snd (getFileMessageAndUpdateAgentViewOfFile env q files)) q"
      by (rule reconcile_own_entry_cong)
    with False ih old show ?thesis unfolding step by simp
  qed
qed

lemma reconcileEach_rejected:
  assumes "distinct ps"
    and "\<forall>p\<in>set ps. \<not> isl (fst (getFileMessageAndUpdateAgentViewOfFile env p files))"
  shows "fst (reconcileEach env ps (rej, results, files)) = rej"
  using assms
proof (induction ps arbitrary: rej results files)
  case Nil
  show ?case by simp
next
  case (Cons p ps)
  define out where "out = fst (getFileMessageAndUpdateAgentViewOfFile env p files)"
  define files1 where "files1 = snd (getFileMessageAndUpdateAgentViewOfFile env p files)"
  define results1 where
    "results1 = (case out of Inr (Some r) \<Rightarrow> AList.update p r results | _ \<Rightarrow> results)"
  define rej1 where
    "rej1 = (case out of
               Inl err \<Rightarrow> (case rej of None \<Rightarrow> Some err | Some e \<Rightarrow> Some e)
             | Inr r \<Rightarrow> rej)"
  from Cons.prems have d: "distinct ps" and np: "p \<notin> set ps" by simp_all
  have step: "reconcileEach env (p # ps) (rej, results, files) =
              reconcileEach env ps (rej1, results1, files1)"
    unfolding reconcileEach_step out_def files1_def results1_def rej1_def ..
  have "\<not> isl out"
    using Cons.prems(2) by (simp add: out_def)
  then have rej1: "rej1 = rej"
    by (cases out) (simp_all add: rej1_def)
  have rest: "\<forall>q\<in>set ps. \<not> isl (fst (getFileMessageAndUpdateAgentViewOfFile env q files1))"
  proof
    fix q assume q: "q \<in> set ps"
    with np have "q \<noteq> p" by auto
    then have "fst (getFileMessageAndUpdateAgentViewOfFile env q files1) =
               fst (getFileMessageAndUpdateAgentViewOfFile env q files)"
      unfolding files1_def by (intro reconcile_result_cong reconcile_other_entry)
    with Cons.prems(2) q
    show "\<not> isl (fst (getFileMessageAndUpdateAgentViewOfFile env q files1))" by simp
  qed
  show ?case
    unfolding step using Cons.IH [OF d rest] rej1 by simp
qed

lemma reconcileEach_rejects:
  assumes "p \<in> set ps" "distinct ps"
    and "isl (fst (getFileMessageAndUpdateAgentViewOfFile env p files))"
  shows "fst (reconcileEach env ps (rej, results, files)) \<noteq> None"
  using assms
proof (induction ps arbitrary: rej results files)
  case Nil
  then show ?case by simp
next
  case (Cons a ps)
  define out where "out = fst (getFileMessageAndUpdateAgentViewOfFile env a files)"
  define files1 where "files1 = snd (getFileMessageAndUpdateAgentViewOfFile env a files)"
  define results1 where
    "results1 = (case out of Inr (Some r) \<Rightarrow> AList.update a r results | _ \<Rightarrow> results)"
  define rej1 where
    "rej1 = (case out of
               Inl err \<Rightarrow> (case rej of None \<Rightarrow> Some err | Some e \<Rightarrow> Some e)
             | Inr r \<Rightarrow> rej)"
  from Cons.prems have d: "distinct ps" and np: "a \<notin> set ps" by simp_all
  have step: "reconcileEach env (a # ps) (rej, results, files) =
              reconcileEach env ps (rej1, results1, files1)"
    unfolding reconcileEach_step out_def files1_def results1_def rej1_def ..
  have keep: "\<And>r rs fs. r \<noteq> None \<Longrightarrow> fst (reconcileEach env ps (r, rs, fs)) \<noteq> None"
  proof -
    fix r :: "NodeError option" and rs fs
    assume "r \<noteq> None"
    then show "fst (reconcileEach env ps (r, rs, fs)) \<noteq> None"
    proof (induction ps arbitrary: r rs fs)
      case Nil
      then show ?case by simp
    next
      case (Cons b ps)
      show ?case
        unfolding reconcileEach_step
        by (rule Cons.IH) (use Cons.prems in \<open>auto split: sum.splits option.splits\<close>)
    qed
  qed
  show ?case
  proof (cases "p = a")
    case True
    with Cons.prems(3) have "isl out" by (simp add: out_def)
    then have "rej1 \<noteq> None" by (auto simp: rej1_def split: sum.splits option.splits)
    then show ?thesis unfolding step by (rule keep)
  next
    case False
    with Cons.prems(1) have p: "p \<in> set ps" by simp
    have "fst (getFileMessageAndUpdateAgentViewOfFile env p files1) =
          fst (getFileMessageAndUpdateAgentViewOfFile env p files)"
      unfolding files1_def using False by (intro reconcile_result_cong reconcile_other_entry)
    with Cons.prems(3) have "isl (fst (getFileMessageAndUpdateAgentViewOfFile env p files1))"
      by simp
    then show ?thesis unfolding step by (rule Cons.IH [OF p d])
  qed
qed

lemma reconcileEach_untouched:
  "q \<notin> set ps \<Longrightarrow>
   map_of (fst (snd (reconcileEach env ps (rej, results, files)))) q = map_of results q"
proof (induction ps arbitrary: rej results files)
  case Nil
  show ?case by simp
next
  case (Cons p ps)
  then have "q \<noteq> p" "q \<notin> set ps" by auto
  then show ?case
    unfolding reconcileEach_step
    by (simp add: Cons.IH AList.update_conv' split: sum.splits option.splits)
qed




lemma getContextUpdate_mentions_tracked_only:
  assumes "fst (getContextUpdate env files) = Inr results" "q \<notin> fst ` set files"
  shows "map_of results q = None"
proof (cases "isContextEmpty files")
  case True
  with assms show ?thesis by (auto simp: getContextUpdate_def)
next
  case False
  from assms(2) have "q \<notin> set (map fst files)" by simp
  from reconcileEach_untouched [OF this, of env None "[]" files]
  show ?thesis
    using assms(1) False
    by (auto simp: getContextUpdate_def split: prod.splits option.splits)
qed

text \<open>
  A pass over files with distinct keys resolves if and only if no task throws; the
  result map then holds for every tracked path what the reconciliation of that path
  alone returns on the files of the start of the pass, and the files after the pass
  hold what it alone writes.
\<close>

lemma getContextUpdate_resolves_iff_no_rethrow:
  assumes keys: "distinct (map fst files)"
  shows "((\<exists>results. fst (getContextUpdate env files) = Inr results) \<longleftrightarrow>
            \<not> (\<exists>p fi err. map_of files p = Some fi \<and> category (fileTypeInfo fi) = TEXT \<and>
                  existsSync env p \<and> getSyncInfo env p = None \<and>
                  readFileSync env p = Inl err \<and> code err \<noteq> Some ''ENOENT''))
         \<and> (\<forall>results. fst (getContextUpdate env files) = Inr results \<longrightarrow>
               (\<forall>p\<in>set (map fst files).
                  fst (getFileMessageAndUpdateAgentViewOfFile env p files) =
                    Inr (map_of results p)
                  \<and> map_of (snd (getContextUpdate env files)) p =
                    map_of (snd (getFileMessageAndUpdateAgentViewOfFile env p files)) p))"
proof (cases "isContextEmpty files")
  case True
  then have "files = []" by (simp add: isContextEmpty_def)
  then show ?thesis by (simp add: getContextUpdate_def isContextEmpty_def)
next
  case False
  obtain rej results files' where
    run: "reconcileEach env (map fst files) (None, [], files) = (rej, results, files')"
    by (cases "reconcileEach env (map fst files) (None, [], files)") auto
  have ret: "fst (getContextUpdate env files) =
               (case rej of None \<Rightarrow> Inr results | Some err \<Rightarrow> Inl err)"
    using False run by (simp add: getContextUpdate_def split: option.splits)
  have ret_files: "snd (getContextUpdate env files) = files'" if "rej = None"
    using False run that by (simp add: getContextUpdate_def)
  let ?throws = "\<lambda>p. isl (fst (getFileMessageAndUpdateAgentViewOfFile env p files))"
  have in_keys: "p \<in> set (map fst files)" if "map_of files p = Some fi" for p fi
    using that by (auto dest: map_of_SomeD intro: rev_image_eqI)
  have rethrow_iff:
    "(\<exists>p fi err. map_of files p = Some fi \<and> category (fileTypeInfo fi) = TEXT \<and>
        existsSync env p \<and> getSyncInfo env p = None \<and>
        readFileSync env p = Inl err \<and> code err \<noteq> Some ''ENOENT'')
     \<longleftrightarrow> (\<exists>p\<in>set (map fst files). ?throws p)"
    unfolding reconcile_throws_iff using in_keys by blast
  have rejected: "rej \<noteq> None \<longleftrightarrow> (\<exists>p\<in>set (map fst files). ?throws p)"
  proof
    assume "rej \<noteq> None"
    show "\<exists>p\<in>set (map fst files). ?throws p"
    proof (rule ccontr)
      assume "\<not> (\<exists>p\<in>set (map fst files). ?throws p)"
      then have "\<forall>p\<in>set (map fst files). \<not> ?throws p" by blast
      from reconcileEach_rejected [OF keys this, of None "[]"] run
      have "rej = None" by simp
      with \<open>rej \<noteq> None\<close> show False by contradiction
    qed
  next
    assume "\<exists>p\<in>set (map fst files). ?throws p"
    then obtain p where "p \<in> set (map fst files)" "?throws p" by blast
    from reconcileEach_rejects [OF this(1) keys this(2), of None "[]"] run
    show "rej \<noteq> None" by simp
  qed
  have part1: "(\<exists>results. fst (getContextUpdate env files) = Inr results) \<longleftrightarrow>
            \<not> (\<exists>p fi err. map_of files p = Some fi \<and> category (fileTypeInfo fi) = TEXT \<and>
                  existsSync env p \<and> getSyncInfo env p = None \<and>
                  readFileSync env p = Inl err \<and> code err \<noteq> Some ''ENOENT'')"
    unfolding rethrow_iff using rejected by (cases rej) (simp_all add: ret)
  have part2: "fst (getFileMessageAndUpdateAgentViewOfFile env p files) = Inr (map_of res p)"
    if res: "fst (getContextUpdate env files) = Inr res" and p: "p \<in> set (map fst files)"
    for res p
  proof -
    from res ret have none: "rej = None" and eq: "res = results"
      by (cases rej; simp)+
    with rejected p have "\<not> ?throws p" by blast
    then obtain r where
      r: "fst (getFileMessageAndUpdateAgentViewOfFile env p files) = Inr r"
      by (cases "fst (getFileMessageAndUpdateAgentViewOfFile env p files)") auto
    have "map_of results p = r"
      using reconcileEach_results [OF keys, of env None "[]" files p] run p r
      by (cases r) simp_all
    with r eq show ?thesis by simp
  qed
  have part3: "map_of (snd (getContextUpdate env files)) p =
               map_of (snd (getFileMessageAndUpdateAgentViewOfFile env p files)) p"
    if res: "fst (getContextUpdate env files) = Inr res" and p: "p \<in> set (map fst files)"
    for res p
  proof -
    from res ret have none: "rej = None" by (cases rej; simp)
    show ?thesis
      using reconcileEach_files [OF keys, of env None "[]" files p] run p
      by (simp add: ret_files [OF none])
  qed
  from part1 part2 part3 show ?thesis by blast
qed

text \<open>
  When a pass rejects, the entry of a text file that is open in a buffer is still the
  one of the start of the pass, and every other entry is what the reconciliation of
  its path alone writes.
\<close>

lemma awaitsEditor_cong:
  "map_of files p = map_of files2 p \<Longrightarrow> awaitsEditor env p files = awaitsEditor env p files2"
  by (simp add: awaitsEditor_def)

lemma startEach_files:
  assumes "distinct ps"
  shows "map_of (startEach env ps files) q =
           (if q \<in> set ps \<and> \<not> awaitsEditor env q files
            then map_of (snd (getFileMessageAndUpdateAgentViewOfFile env q files)) q
            else map_of files q)"
  using assms
proof (induction ps arbitrary: files)
  case Nil
  show ?case by simp
next
  case (Cons p ps)
  define files1 where
    "files1 = (if awaitsEditor env p files then files
               else snd (getFileMessageAndUpdateAgentViewOfFile env p files))"
  from Cons.prems have d: "distinct ps" and np: "p \<notin> set ps" by simp_all
  have step: "startEach env (p # ps) files = startEach env ps files1"
    by (simp add: files1_def)
  have ih: "map_of (startEach env ps files1) q =
              (if q \<in> set ps \<and> \<not> awaitsEditor env q files1
               then map_of (snd (getFileMessageAndUpdateAgentViewOfFile env q files1)) q
               else map_of files1 q)"
    by (rule Cons.IH [OF d])
  show ?case
  proof (cases "q = p")
    case True
    with np ih show ?thesis unfolding step by (simp add: files1_def)
  next
    case False
    then have old: "map_of files1 q = map_of files q"
      by (simp add: files1_def reconcile_other_entry)
    then have "awaitsEditor env q files1 = awaitsEditor env q files"
      and "map_of (snd (getFileMessageAndUpdateAgentViewOfFile env q files1)) q =
           map_of (snd (getFileMessageAndUpdateAgentViewOfFile env q files)) q"
      by (rule awaitsEditor_cong, rule reconcile_own_entry_cong)
    with False ih old show ?thesis unfolding step by simp
  qed
qed

lemma rejected_pass_files:
  assumes keys: "distinct (map fst files)"
    and rejected: "fst (getContextUpdate env files) = Inl err"
    and p: "p \<in> set (map fst files)"
  shows "map_of (snd (getContextUpdate env files)) p =
           (if awaitsEditor env p files then map_of files p
            else map_of (snd (getFileMessageAndUpdateAgentViewOfFile env p files)) p)"
proof -
  have nonempty: "\<not> isContextEmpty files"
    using rejected by (auto simp: getContextUpdate_def)
  obtain rej results files' where
    run: "reconcileEach env (map fst files) (None, [], files) = (rej, results, files')"
    by (cases "reconcileEach env (map fst files) (None, [], files)") auto
  have "snd (getContextUpdate env files) = startEach env (map fst files) files"
  proof (cases rej)
    case None
    with nonempty run rejected show ?thesis by (simp add: getContextUpdate_def)
  next
    case (Some e)
    with nonempty run show ?thesis by (simp add: getContextUpdate_def)
  qed
  then show ?thesis
    using startEach_files [OF keys, of env files p] p by simp
qed

subsection \<open>Failures of one file: which are returned and which is thrown\<close>

text \<open>A failing \<open>statSync\<close> of a text file that is open in a buffer is returned as the
  error of that file; the files stay as they are.\<close>

lemma stat_failure_in_buffer_is_error_entry:
  assumes "map_of files p = Some fi" "category (fileTypeInfo fi) = TEXT" "existsSync env p"
    and "getSyncInfo env p = Some bsi" "statSync env p = Inl err"
  shows "getFileMessageAndUpdateAgentViewOfFile env p files =
           (Inr (Some (entry p (relativePath env p)
                   (Error (GrabContextError p (message err) (stack err))))), files)"
proof -
  have "currentFileContent env p = EarlyError (GrabContextError p (message err) (stack err))"
    using assms(4,5) by (simp add: currentFileContent_def grabError_def)
  with assms(1-3) show ?thesis
    by (simp add: getFileMessageAndUpdateAgentViewOfFile_def handleTextFileUpdate_def)
qed

text \<open>So is a failing \<open>statSync\<close> of an image or a PDF.\<close>

lemma stat_failure_of_binary_is_error_entry:
  assumes "map_of files p = Some fi" "category (fileTypeInfo fi) \<noteq> TEXT" "existsSync env p"
    and "statSync env p = Inl err"
  shows "getFileMessageAndUpdateAgentViewOfFile env p files =
           (Inr (Some (entry p (relativePath env p) (Error (FileStatsError p (message err))))),
            files)"
  using assms
  by (simp add: getFileMessageAndUpdateAgentViewOfFile_def handleBinaryFileUpdate_def
        statsError_def)

text \<open>So is a failing read of an image that is new to the agent or newer on disk.\<close>

lemma read_failure_of_image_is_error_entry:
  assumes "map_of files p = Some fi" "existsSync env p"
    and "category (fileTypeInfo fi) \<noteq> TEXT" "category (fileTypeInfo fi) \<noteq> PDF"
    and "statSync env p = Inr currentMtime"
    and "\<forall>m. agentView fi = Some (AgentBinary m) \<longrightarrow> m = 0 \<or> m < currentMtime"
    and "readFileSync env p = Inl err"
  shows "getFileMessageAndUpdateAgentViewOfFile env p files =
           (Inr (Some (entry p (relativePath env p) (Error (FileStatsError p (message err))))),
            setAgentView p (AgentBinary currentMtime) files)"
proof -
  have "handleBinaryFileUpdate env p (relativePath env p) fi files =
          (Some (entry p (relativePath env p) (Error (FileStatsError p (message err)))),
           setAgentView p (AgentBinary currentMtime) files)"
    using assms(3-7)
    by (auto simp: handleBinaryFileUpdate_def statsError_def Let_def
          split: option.splits AgentView.splits)
  with assms(1-3) show ?thesis
    by (simp add: getFileMessageAndUpdateAgentViewOfFile_def Let_def)
qed

text \<open>A failing read of a text file without a buffer is thrown, unless it is
  \<open>ENOENT\<close>.\<close>

lemma read_failure_of_text_without_buffer_is_thrown:
  assumes "map_of files p = Some fi" "category (fileTypeInfo fi) = TEXT" "existsSync env p"
    and "getSyncInfo env p = None" "readFileSync env p = Inl err"
    and "code err \<noteq> Some ''ENOENT''"
  shows "getFileMessageAndUpdateAgentViewOfFile env p files = (Inl err, files)"
proof -
  have "currentFileContent env p = Rethrown err"
    using assms(4-6) by (simp add: currentFileContent_Rethrown_iff)
  with assms(1-3) show ?thesis
    by (simp add: getFileMessageAndUpdateAgentViewOfFile_def handleTextFileUpdate_def)
qed

text \<open>In a pass, the conflict of one file is recorded in its entry beside the update
  of the other file.\<close>

lemma conflict_is_recorded_beside_other_update:
  "\<exists>results.
      fst (getContextUpdate mixedEnv twoTextFiles) = Inr results \<and>
      map_of results ''/w/a.txt'' =
        Some (entry ''/w/a.txt'' ''/w/a.txt'' (Error (BothChanged 4 ''/w/a.txt''))) \<and>
      map_of results ''/w/b.txt'' =
        Some (entry ''/w/b.txt'' ''/w/b.txt'' (Ok (WholeFile ''x'')))"
  by (simp add: reconcile_defs example_defs mixedEnv_def twoTextFiles_def)

subsection \<open>Reset\<close>

lemma reset_conv: "reset files = map (\<lambda>(p, fi). (p, fi\<lparr>agentView := None\<rparr>)) files"
  by (induction files rule: reset.induct) simp_all

lemma map_of_reset:
  "map_of (reset files) p = map_option (\<lambda>fi. fi\<lparr>agentView := None\<rparr>) (map_of files p)"
  by (induction files rule: reset.induct) simp_all

section \<open>The claims\<close>

subsection \<open>C1: conflict between buffer and disk\<close>

text \<open>
  Claim C1. A tracked text file is open in a buffer; the change tick of the buffer
  differs from the one last observed and the modification time on disk is newer
  than the one last synchronised. Then the reconciliation of the file returns the
  conflict error, and the files are exactly what they were: the agent's view of the
  file is not written and the file is still tracked.
\<close>

theorem conflict_returns_error_and_keeps_files:
  assumes tracked: "map_of files p = Some fi"
    and is_text: "category (fileTypeInfo fi) = TEXT"
    and on_disk: "existsSync env p"
    and in_buffer: "getSyncInfo env p = Some bsi"
    and stat: "statSync env p = Inr diskMtime"
    and tick: "getChangeTick env (bufnr bsi) = Inr currentChangeTick"
    and buffer_changed: "changeTick bsi \<noteq> currentChangeTick"
    and file_changed: "mtime bsi < diskMtime"
  shows "getFileMessageAndUpdateAgentViewOfFile env p files =
           (Inr (Some (entry p (relativePath env p) (Error (BothChanged (bufnr bsi) p)))), files)
         \<and> map_of files p = Some fi"
proof -
  have "currentFileContent env p = EarlyError (BothChanged (bufnr bsi) p)"
    using in_buffer stat tick buffer_changed file_changed
    by (simp add: currentFileContent_def)
  then show ?thesis
    using tracked is_text on_disk
    by (simp add: getFileMessageAndUpdateAgentViewOfFile_def handleTextFileUpdate_def)
qed

text \<open>Claim C1 at a concrete file: buffer 4 at tick 3 (last seen 2), disk time 20 (last
  synchronised 10).\<close>

theorem conflict_witness:
  "getFileMessageAndUpdateAgentViewOfFile conflictEnv ''/w/a.txt''
     [(''/w/a.txt'', textInfo ''a.txt'' (Some (AgentText ''old'')))] =
   (Inr (Some (entry ''/w/a.txt'' ''/w/a.txt'' (Error (BothChanged 4 ''/w/a.txt'')))),
    [(''/w/a.txt'', textInfo ''a.txt'' (Some (AgentText ''old'')))])"
  using conflict_returns_error_and_keeps_files
    [of "[(''/w/a.txt'', textInfo ''a.txt'' (Some (AgentText ''old'')))]" "''/w/a.txt''"
        "textInfo ''a.txt'' (Some (AgentText ''old''))" conflictEnv
        "\<lparr>bufnr = 4, mtime = 10, changeTick = 2\<rparr>" 20 3]
  by (simp add: conflictEnv_def quietEnv_def textInfo_def)

subsection \<open>C2: a PDF whose text cannot be extracted\<close>

text \<open>
  Claim C2 says that a failed extraction leaves the agent's view as it was, so that
  the extraction is tried again in the next pass. The code writes the new
  modification time into the agent's view before it calls the extractor. At the file
  \<open>/w/d.pdf\<close>, recorded with time 3 and now at time 7: the failing extraction
  returns the extractor's error and the entry holds \<open>AgentBinary 7\<close>; in the next
  pass, in a world where the extractor would succeed, nothing is returned and the
  extractor is not called again.
\<close>

theorem failed_pdf_extraction_records_mtime_and_is_not_retried:
  "getFileMessageAndUpdateAgentViewOfFile pdfFailEnv ''/w/d.pdf''
     [(''/w/d.pdf'', pdfInfo ''d.pdf'' (Some (AgentBinary 3)))] =
     (Inr (Some (entry ''/w/d.pdf'' ''/w/d.pdf'' (Error (PdfTextError ''cannot parse'')))),
      [(''/w/d.pdf'', pdfInfo ''d.pdf'' (Some (AgentBinary 7)))])
   \<and> getFileMessageAndUpdateAgentViewOfFile pdfFineEnv ''/w/d.pdf''
     [(''/w/d.pdf'', pdfInfo ''d.pdf'' (Some (AgentBinary 7)))] =
     (Inr None, [(''/w/d.pdf'', pdfInfo ''d.pdf'' (Some (AgentBinary 7)))])"
  by (simp add: reconcile_defs example_defs pdfFailEnv_def pdfFineEnv_def)

subsection \<open>C3: failures of single files in a pass\<close>

text \<open>
  Claim C3 says that a failure of one file never makes the pass fail: the result map
  is returned with the error recorded for that file. The branch of
  \<open>handleTextFileUpdate\<close> for a file without a buffer throws every read error
  other than \<open>ENOENT\<close> again, where the branch for an open buffer and
  \<open>handleBinaryFileUpdate\<close> return the error of the file. At the files
  \<open>/w/a.txt\<close> and \<open>/w/b.txt\<close>, both new to the agent, when the read of
  \<open>/w/a.txt\<close> is refused (\<open>EACCES\<close>): \<open>getContextUpdate\<close> rejects with that
  error and returns no result map, while the entry of \<open>/w/b.txt\<close> already holds
  the content \<open>x\<close>; the next pass, in a world where both files read as \<open>x\<close>,
  sends \<open>/w/a.txt\<close> and does not mention \<open>/w/b.txt\<close>, whose content the agent
  has never been sent.
\<close>

theorem read_error_rejects_whole_pass:
  "getContextUpdate deniedEnv twoTextFiles =
     (Inl eacces,
      [(''/w/a.txt'', textInfo ''a.txt'' None),
       (''/w/b.txt'', textInfo ''b.txt'' (Some (AgentText ''x'')))])
   \<and> getContextUpdate xEnv
       [(''/w/a.txt'', textInfo ''a.txt'' None),
        (''/w/b.txt'', textInfo ''b.txt'' (Some (AgentText ''x'')))] =
     (Inr [(''/w/a.txt'', entry ''/w/a.txt'' ''/w/a.txt'' (Ok (WholeFile ''x'')))],
      [(''/w/a.txt'', textInfo ''a.txt'' (Some (AgentText ''x''))),
       (''/w/b.txt'', textInfo ''b.txt'' (Some (AgentText ''x'')))])"
  by (simp add: reconcile_defs example_defs awaitsEditor_def deniedEnv_def xEnv_def
        twoTextFiles_def)

subsection \<open>C4 and C8: the first sight of a text file\<close>

text \<open>
  Claim C4 says that a whole file is sent once, when the agent's view goes from
  nothing to a text, and never again after that. The test \<open>!prevContent\<close> of the
  code also holds for the empty string. At an empty file \<open>/w/a.txt\<close>: the first
  pass sends the whole (empty) file and records the empty text; the next pass, when
  the file has become \<open>x\<close>, sends the whole file again and no diff.
\<close>

theorem empty_first_sight_gives_whole_file_again:
  "getContextUpdate quietEnv [(''/w/a.txt'', textInfo ''a.txt'' None)] =
     (Inr [(''/w/a.txt'', entry ''/w/a.txt'' ''/w/a.txt'' (Ok (WholeFile [])))],
      [(''/w/a.txt'', textInfo ''a.txt'' (Some (AgentText [])))])
   \<and> getContextUpdate xEnv [(''/w/a.txt'', textInfo ''a.txt'' (Some (AgentText [])))] =
     (Inr [(''/w/a.txt'', entry ''/w/a.txt'' ''/w/a.txt'' (Ok (WholeFile ''x'')))],
      [(''/w/a.txt'', textInfo ''a.txt'' (Some (AgentText ''x'')))])"
  by (simp add: reconcile_defs example_defs xEnv_def)

text \<open>
  Claim C8 says that the second of two reconciliations of an unchanged text file
  returns nothing. At the empty file \<open>/w/a.txt\<close>, in the same world both times:
  the second reconciliation returns the whole file again.
\<close>

theorem unchanged_empty_file_is_sent_whole_twice:
  "getFileMessageAndUpdateAgentViewOfFile quietEnv ''/w/a.txt''
     [(''/w/a.txt'', textInfo ''a.txt'' None)] =
     (Inr (Some (entry ''/w/a.txt'' ''/w/a.txt'' (Ok (WholeFile [])))),
      [(''/w/a.txt'', textInfo ''a.txt'' (Some (AgentText [])))])
   \<and> getFileMessageAndUpdateAgentViewOfFile quietEnv ''/w/a.txt''
     [(''/w/a.txt'', textInfo ''a.txt'' (Some (AgentText [])))] =
     (Inr (Some (entry ''/w/a.txt'' ''/w/a.txt'' (Ok (WholeFile [])))),
      [(''/w/a.txt'', textInfo ''a.txt'' (Some (AgentText [])))])"
  by (simp add: reconcile_defs example_defs)

subsection \<open>C6: files that are gone\<close>




subsection \<open>C7: images\<close>




subsection \<open>C9: tracking an unsupported file\<close>

text \<open>
  Claim C9. \<open>add-file-context\<close> with the category \<open>UNSUPPORTED\<close> throws, for
  every path and MIME type, and leaves the files as they were. A path that was not
  tracked before is not tracked after: its reconciliation in any world returns
  nothing and changes nothing, and no result map of a pass mentions it.
\<close>

theorem track_unsupported_throws_and_tracks_nothing:
  assumes unsupported: "category fti = UNSUPPORTED"
  shows "update env (AddFileContext rel p fti) files =
           (Some (CannotAddUnsupported rel UNSUPPORTED (mimeType fti)), files)
         \<and> (p \<notin> fst ` set files \<longrightarrow>
              getFileMessageAndUpdateAgentViewOfFile env'
                  p (snd (update env (AddFileContext rel p fti) files)) =
                (Inr None, files)
              \<and> (\<forall>results.
                   fst (getContextUpdate env'
                          (snd (update env (AddFileContext rel p fti) files))) = Inr results
                   \<longrightarrow> map_of results p = None))"
proof -
  have u: "update env (AddFileContext rel p fti) files =
           (Some (CannotAddUnsupported rel UNSUPPORTED (mimeType fti)), files)"
    using unsupported by (simp add: update_def)
  have "getFileMessageAndUpdateAgentViewOfFile env' p files = (Inr None, files)"
    if "p \<notin> fst ` set files"
  proof -
    from that have "map_of files p = None" by (simp add: map_of_eq_None_iff)
    then show ?thesis by (simp add: getFileMessageAndUpdateAgentViewOfFile_def)
  qed
  moreover have "\<forall>results. fst (getContextUpdate env' files) = Inr results
                   \<longrightarrow> map_of results p = None"
    if "p \<notin> fst ` set files"
    using getContextUpdate_mentions_tracked_only [OF _ that] by blast
  ultimately show ?thesis by (simp add: u)
qed

text \<open>Claim C9 at a zip archive, beside one tracked text file.\<close>

theorem track_unsupported_witness:
  "update quietEnv
     (AddFileContext ''a.zip'' ''/w/a.zip'' \<lparr>category = UNSUPPORTED, mimeType = ''application/zip''\<rparr>)
     [(''/w/b.txt'', textInfo ''b.txt'' None)] =
     (Some (CannotAddUnsupported ''a.zip'' UNSUPPORTED ''application/zip''),
      [(''/w/b.txt'', textInfo ''b.txt'' None)])
   \<and> getFileMessageAndUpdateAgentViewOfFile xEnv ''/w/a.zip''
       (snd (update quietEnv
          (AddFileContext ''a.zip'' ''/w/a.zip''
             \<lparr>category = UNSUPPORTED, mimeType = ''application/zip''\<rparr>)
          [(''/w/b.txt'', textInfo ''b.txt'' None)])) =
     (Inr None, [(''/w/b.txt'', textInfo ''b.txt'' None)])"
  using track_unsupported_throws_and_tracks_nothing
    [of "\<lparr>category = UNSUPPORTED, mimeType = ''application/zip''\<rparr>" quietEnv "''a.zip''"
        "''/w/a.zip''" "[(''/w/b.txt'', textInfo ''b.txt'' None)]" xEnv]
  by (simp add: update_def getFileMessageAndUpdateAgentViewOfFile_def)

subsection \<open>C10: reset\<close>

text \<open>
  Claim C10. \<open>reset\<close> keeps the keys, the relative paths and the file type
  information of all files, in their order, and sets every agent's view to
  \<open>undefined\<close>. After it, the reconciliation of a tracked text file that exists and
  whose content can be read returns the whole file.
\<close>

theorem reset_clears_every_agent_view:
  "map fst (reset files) = map fst files
   \<and> map (relFilePath \<circ> snd) (reset files) = map (relFilePath \<circ> snd) files
   \<and> map (fileTypeInfo \<circ> snd) (reset files) = map (fileTypeInfo \<circ> snd) files
   \<and> map (agentView \<circ> snd) (reset files) = replicate (length files) None
   \<and> (map_of files p = Some fi \<and> category (fileTypeInfo fi) = TEXT \<and> existsSync env p \<and>
       currentFileContent env p = Current cur \<longrightarrow>
        getFileMessageAndUpdateAgentViewOfFile env p (reset files) =
          (Inr (Some (entry p (relativePath env p) (Ok (WholeFile cur)))),
           setAgentView p (AgentText cur) (reset files)))"
proof -
  have fields: "map fst (reset files) = map fst files
    \<and> map (relFilePath \<circ> snd) (reset files) = map (relFilePath \<circ> snd) files
    \<and> map (fileTypeInfo \<circ> snd) (reset files) = map (fileTypeInfo \<circ> snd) files
    \<and> map (agentView \<circ> snd) (reset files) = replicate (length files) None"
    by (induction files rule: reset.induct) simp_all
  have again: "getFileMessageAndUpdateAgentViewOfFile env p (reset files) =
          (Inr (Some (entry p (relativePath env p) (Ok (WholeFile cur)))),
           setAgentView p (AgentText cur) (reset files))"
    if "map_of files p = Some fi" "category (fileTypeInfo fi) = TEXT" "existsSync env p"
       "currentFileContent env p = Current cur"
    using that
    by (simp add: getFileMessageAndUpdateAgentViewOfFile_def handleTextFileUpdate_def
          map_of_reset Let_def)
  from fields again show ?thesis by blast
qed

text \<open>Claim C10 at a text file that the agent had seen as \<open>old\<close>.\<close>

theorem reset_witness:
  "getFileMessageAndUpdateAgentViewOfFile xEnv ''/w/a.txt''
     (reset [(''/w/a.txt'', textInfo ''a.txt'' (Some (AgentText ''old'')))]) =
     (Inr (Some (entry ''/w/a.txt'' ''/w/a.txt'' (Ok (WholeFile ''x'')))),
      [(''/w/a.txt'', textInfo ''a.txt'' (Some (AgentText ''x'')))])"
  using reset_clears_every_agent_view
    [of "[(''/w/a.txt'', textInfo ''a.txt'' (Some (AgentText ''old'')))]" "''/w/a.txt''"
        "textInfo ''a.txt'' (Some (AgentText ''old''))" xEnv "''x''"]
  by (simp add: currentFileContent_def setAgentView_def example_defs xEnv_def)

end
